theory Spec2Isabelle
  imports Main "HOL-Library.Multiset"
begin

section \<open>Structural motif search: the data of \<open>strucmotif.tsx\<close>\<close>

text \<open>
  The component \<open>SubmitControls\<close> of \<open>src/viewer/ui/strucmotif.tsx\<close> reads the
  selection history of the viewer, keeps one \<open>Residue\<close> per history entry in
  \<open>state.residueMap\<close>, and compiles the first entries of the history into a query.
  The viewer's own objects are modelled by the fields the component reads.
\<close>

definition MIN_MOTIF_SIZE :: nat where
  "MIN_MOTIF_SIZE = 3"

definition MAX_MOTIF_SIZE :: nat where
  "MAX_MOTIF_SIZE = 10"

text \<open>
  One row of the atom table of a unit's model: the values that
  \<open>StructureProperties.chain.label_asym_id\<close>, \<open>StructureProperties.residue.label_seq_id\<close>
  and \<open>StructureProperties.atom.label_comp_id\<close> return at a location.
\<close>

record atom_site =
  site_asym_id :: string
  site_seq_id :: int
  site_comp_id :: string

text \<open>
  A unit: \<open>unit.elements\<close> (the atom index of each unit index), the operator ids that
  \<open>StructureProperties.unit.pdbx_struct_oper_list_ids\<close> returns (they may be undefined),
  and the atom table of the unit's model.
\<close>

record structure_unit =
  unit_elements :: "nat list"
  oper_list_ids :: "string list option"
  atom_sites :: "atom_site list"

record model =
  model_entry :: string

record mol_structure =
  model :: model

text \<open>One element of a loci: a unit and the ordered set \<open>indices\<close> of unit indices.\<close>

record loci_element =
  unit :: structure_unit
  indices :: "nat list"

record loci =
  loci_structure :: mol_structure
  elements :: "loci_element list"

text \<open>
  A \<open>StructureSelectionHistoryEntry\<close>. The viewer creates each entry once, with a
  fresh \<open>id\<close>, and never changes it, so equality of these records stands for the
  identity of the object, which is what the JavaScript \<open>Map\<close> compares.
\<close>

record history_entry =
  entry_id :: string
  loci :: loci
  label :: string

record location =
  loc_structure :: mol_structure
  loc_unit :: structure_unit
  loc_element :: nat

text \<open>
  What the source can throw. \<open>TypeError\<close> is JavaScript's error on reading a property
  of \<open>undefined\<close>. \<open>UndefinedElement\<close> marks a location outside the unit (an empty
  index set, or an index outside \<open>unit.elements\<close> or the atom table): the viewer never
  builds such a loci, and what its property functions return there is not modelled.
\<close>

datatype js_error = TypeError | UndefinedElement

record ResidueSelection =
  label_asym_id :: string
  struct_oper_id :: string
  label_seq_id :: int

record Exchange =
  residue_id :: ResidueSelection
  allowed :: "string list"

text \<open>
  The class \<open>Residue\<close>. \<open>exchanges\<close> is a JavaScript \<open>Set<string>\<close>: its members in
  insertion order, each once. The field \<open>parent\<close> only serves to redraw the component.
\<close>

record Residue =
  entry :: history_entry
  exchanges :: "string list"

text \<open>
  \<open>state.residueMap\<close>. A key of the map is absent (\<open>None\<close>), or present with the value
  \<open>undefined\<close> (\<open>Some None\<close>), or present with a \<open>Residue\<close>.
\<close>

type_synonym residue_map = "history_entry \<Rightarrow> Residue option option"

text \<open>The query object; the nested \<open>parameters\<close> and \<open>value\<close> objects are flattened.\<close>

record query =
  query_type :: string
  service :: string
  data :: "string option"
  residue_ids :: "ResidueSelection list"
  score_cutoff :: int
  query_exchanges :: "Exchange list"

text \<open>
  What a call of \<open>submitSearch\<close> does when it returns: it logs a warning, or it opens
  the search page for a query.
\<close>

datatype outcome = Warn string | Open query

record menu_item =
  kind :: string
  item_label :: string
  disabled :: bool

section \<open>JavaScript library functions\<close>

text \<open>\<open>Set.prototype.has\<close>, \<open>add\<close> and \<open>delete\<close> on a set kept in insertion order.\<close>

definition set_has :: "string list \<Rightarrow> string \<Rightarrow> bool" where
  "set_has s v = (v \<in> set s)"

definition set_add :: "string \<Rightarrow> string list \<Rightarrow> string list" where
  "set_add v s = (if v \<in> set s then s else s @ [v])"

definition set_delete :: "string \<Rightarrow> string list \<Rightarrow> string list" where
  "set_delete v s = removeAll v s"

text \<open>\<open>Array.prototype.join\<close>.\<close>

fun join :: "string \<Rightarrow> string list \<Rightarrow> string" where
  "join sep [] = []"
| "join sep [x] = x"
| "join sep (x # y # ys) = x @ sep @ join sep (y # ys)"

text \<open>Reading an array at an index: \<open>None\<close> is \<open>undefined\<close>.\<close>

fun at_index :: "'a list \<Rightarrow> nat \<Rightarrow> 'a option" where
  "at_index [] i = None"
| "at_index (x # xs) 0 = Some x"
| "at_index (x # xs) (Suc i) = at_index xs i"

text \<open>\<open>Map.prototype.get\<close> and \<open>has\<close>.\<close>

definition map_get :: "residue_map \<Rightarrow> history_entry \<Rightarrow> Residue option" where
  "map_get m k = (case m k of None \<Rightarrow> None | Some v \<Rightarrow> v)"

definition map_has :: "residue_map \<Rightarrow> history_entry \<Rightarrow> bool" where
  "map_has m k = (m k \<noteq> None)"

text \<open>
  \<open>Array.prototype.sort\<close> with a comparison function. The sort of ECMAScript is stable,
  and for a consistent comparison its result is the one stable sorted arrangement, which
  insertion from the right computes. An element goes before the first element it does
  not compare greater than.
\<close>

fun insert_sorted :: "('a \<Rightarrow> 'a \<Rightarrow> int) \<Rightarrow> 'a \<Rightarrow> 'a list \<Rightarrow> 'a list" where
  "insert_sorted c x [] = [x]"
| "insert_sorted c x (y # ys) =
     (if c x y \<le> 0 then x # y # ys else y # insert_sorted c x ys)"

definition array_sort :: "('a \<Rightarrow> 'a \<Rightarrow> int) \<Rightarrow> 'a list \<Rightarrow> 'a list" where
  "array_sort c xs = foldr (insert_sorted c) xs []"

text \<open>
  \<open>String.prototype.localeCompare\<close> is the collation of the host's locale. It is a
  parameter \<open>lc\<close> of the model; the results about sorting hold for every comparison
  that is the three-way comparison of a linear order on strings.
\<close>

definition linear_collation :: "(string \<Rightarrow> string \<Rightarrow> int) \<Rightarrow> bool" where
  "linear_collation lc \<longleftrightarrow>
     (\<forall>a b. lc a b = 0 \<longleftrightarrow> a = b) \<and>
     (\<forall>a b. lc a b < 0 \<longleftrightarrow> 0 < lc b a) \<and>
     (\<forall>a b c. lc a b < 0 \<longrightarrow> lc b c < 0 \<longrightarrow> lc a c < 0)"

text \<open>A collation to run the model with: strings compared character by character.\<close>

fun char_compare :: "string \<Rightarrow> string \<Rightarrow> int" where
  "char_compare [] [] = 0"
| "char_compare [] (y # ys) = - 1"
| "char_compare (x # xs) [] = 1"
| "char_compare (x # xs) (y # ys) =
     (if of_char x < (of_char y :: nat) then - 1
      else if of_char y < (of_char x :: nat) then 1
      else char_compare xs ys)"

section \<open>Locations\<close>

text \<open>
  \<open>OrderedSet.getAt\<close> reads an ordered set at a position. The source calls
  \<open>StructureElement.Location.set(location, structure, e.unit,
  e.unit.elements[OrderedSet.getAt(e.indices, 0)])\<close> for the first element \<open>e\<close> of the
  loci of an entry; reading \<open>e.unit\<close> throws when the loci has no element. The
  location is the global object \<open>location\<close> of the source, which is set and then read at
  once; here it is a value. \<open>first_location\<close> yields a location only for an atom of the
  unit's atom table, so that the property functions below read a row that exists.
\<close>

definition getAt :: "nat list \<Rightarrow> nat \<Rightarrow> nat option" where
  "getAt s i = at_index s i"

definition first_location :: "history_entry \<Rightarrow> js_error + location" where
  "first_location l =
     (case at_index (elements (loci l)) 0 of
        None \<Rightarrow> Inl TypeError
      | Some e \<Rightarrow>
          (case getAt (indices e) 0 of
             None \<Rightarrow> Inl UndefinedElement
           | Some k \<Rightarrow>
               (case at_index (unit_elements (unit e)) k of
                  None \<Rightarrow> Inl UndefinedElement
                | Some a \<Rightarrow>
                    if a < length (atom_sites (unit e))
                    then Inr \<lparr>loc_structure = loci_structure (loci l), loc_unit = unit e,
                              loc_element = a\<rparr>
                    else Inl UndefinedElement)))"

definition site_at :: "location \<Rightarrow> atom_site" where
  "site_at loc = atom_sites (loc_unit loc) ! loc_element loc"

definition unit_pdbx_struct_oper_list_ids :: "location \<Rightarrow> string list option" where
  "unit_pdbx_struct_oper_list_ids loc = oper_list_ids (loc_unit loc)"

definition chain_label_asym_id :: "location \<Rightarrow> string" where
  "chain_label_asym_id loc = site_asym_id (site_at loc)"

definition residue_label_seq_id :: "location \<Rightarrow> int" where
  "residue_label_seq_id loc = site_seq_id (site_at loc)"

definition atom_label_comp_id :: "location \<Rightarrow> string" where
  "atom_label_comp_id loc = site_comp_id (site_at loc)"

section \<open>The class \<open>Residue\<close>\<close>

text \<open>The constructor: the set of exchanges starts with the residue's own type.\<close>

definition new_Residue :: "history_entry \<Rightarrow> js_error + Residue" where
  "new_Residue e =
     (case first_location e of
        Inl err \<Rightarrow> Inl err
      | Inr loc \<Rightarrow> Inr \<lparr>entry = e, exchanges = set_add (atom_label_comp_id loc) []\<rparr>)"

definition hasExchange :: "Residue \<Rightarrow> string \<Rightarrow> bool" where
  "hasExchange r val = set_has (exchanges r) val"

definition toggleExchange :: "Residue \<Rightarrow> string \<Rightarrow> Residue" where
  "toggleExchange r val =
     (if hasExchange r val
      then r\<lparr>exchanges := set_delete val (exchanges r)\<rparr>
      else r\<lparr>exchanges := set_add val (exchanges r)\<rparr>)"

section \<open>\<open>SubmitControls\<close>\<close>

text \<open>
  The residue id that the loop of \<open>submitSearch\<close> builds at a location. The operator
  ids are joined with \<open>x\<close>; without operator ids the id is \<open>1\<close>.
\<close>

definition residueId_at :: "location \<Rightarrow> ResidueSelection" where
  "residueId_at loc =
     (let struct_oper_list_ids = unit_pdbx_struct_oper_list_ids loc in
      \<lparr>label_asym_id = chain_label_asym_id loc,
       struct_oper_id =
         (case struct_oper_list_ids of
            None \<Rightarrow> ''1''
          | Some ids \<Rightarrow> if length ids \<noteq> 0 then join ''x'' ids else ''1''),
       label_seq_id = residue_label_seq_id loc\<rparr>)"

text \<open>
  The loop of \<open>submitSearch\<close> over the entries it considers, with the three collections
  \<open>pdbId\<close>, \<open>residueIds\<close> and \<open>exchanges\<close> it fills. Reading \<open>exchanges\<close> of an entry
  that the map does not hold, or holds as \<open>undefined\<close>, throws.
\<close>

fun collect :: "residue_map \<Rightarrow> history_entry list \<Rightarrow>
    string list \<times> ResidueSelection list \<times> Exchange list \<Rightarrow>
    js_error + string list \<times> ResidueSelection list \<times> Exchange list" where
  "collect m [] acc = Inr acc"
| "collect m (l # ls) (pdbId, residueIds, exs) =
     (case first_location l of
        Inl err \<Rightarrow> Inl err
      | Inr loc \<Rightarrow>
          (let residueId = residueId_at loc in
           case map_get m l of
             None \<Rightarrow> Inl TypeError
           | Some residueMapEntry \<Rightarrow>
               collect m ls
                 (set_add (model_entry (model (loci_structure (loci l)))) pdbId,
                  residueIds @ [residueId],
                  if length (exchanges residueMapEntry) > 0
                  then exs @ [\<lparr>residue_id = residueId,
                               allowed = exchanges residueMapEntry\<rparr>]
                  else exs)))"

definition sortResidueIds ::
    "(string \<Rightarrow> string \<Rightarrow> int) \<Rightarrow> ResidueSelection \<Rightarrow> ResidueSelection \<Rightarrow> int" where
  "sortResidueIds lc a b =
     (if label_asym_id a \<noteq> label_asym_id b then lc (label_asym_id a) (label_asym_id b)
      else if struct_oper_id a \<noteq> struct_oper_id b
        then lc (struct_oper_id a) (struct_oper_id b)
      else if label_seq_id a < label_seq_id b then - 1
      else if label_seq_id a > label_seq_id b then 1 else 0)"

text \<open>The entries that \<open>submitSearch\<close> looks at: the loop stops at \<open>MAX_MOTIF_SIZE\<close>.\<close>

definition considered :: "history_entry list \<Rightarrow> history_entry list" where
  "considered h = take (min MAX_MOTIF_SIZE (length h)) h"

definition multi_model_warning :: string where
  "multi_model_warning = ''Motifs can only be extracted from a single model!''"

definition max_size_warning :: string where
  "max_size_warning = ''Maximum motif size is 10 residues!''"

definition polymer_warning :: string where
  "polymer_warning = ''Selections may only contain polymeric entities!''"

text \<open>
  \<open>submitSearch\<close>, from the map of the component's state and the history
  \<open>selection.additionsHistory\<close>. \<open>pdbId.values().next().value\<close> is the first member of
  the set, or \<open>undefined\<close> for the empty set. The page it opens is determined by the query.
\<close>

definition submitSearch ::
    "(string \<Rightarrow> string \<Rightarrow> int) \<Rightarrow> residue_map \<Rightarrow> history_entry list \<Rightarrow> js_error + outcome" where
  "submitSearch lc m h =
     (case collect m (considered h) ([], [], []) of
        Inl err \<Rightarrow> Inl err
      | Inr (pdbId, residueIds, exs) \<Rightarrow>
          if length pdbId > 1 then Inr (Warn multi_model_warning)
          else if length residueIds > MAX_MOTIF_SIZE then Inr (Warn max_size_warning)
          else if length (filter (\<lambda>v. label_seq_id v = 0) residueIds) > 0
            then Inr (Warn polymer_warning)
          else Inr (Open \<lparr>query_type = ''terminal'', service = ''strucmotif'',
                           data = at_index pdbId 0,
                           residue_ids = array_sort (sortResidueIds lc) residueIds,
                           score_cutoff = 0, query_exchanges = exs\<rparr>))"

text \<open>The getter \<open>actions\<close>: the one menu item, disabled below the minimum size.\<close>

definition actions :: "history_entry list \<Rightarrow> menu_item list" where
  "actions h =
     [\<lparr>kind = ''item'',
       item_label = ''Submit Search '' @
         (if length h < MIN_MOTIF_SIZE then '' (3 selections required)'' else []),
       disabled = (length h < MIN_MOTIF_SIZE)\<rparr>]"

text \<open>
  \<open>updateResidues\<close>: a new map with one key per history entry, whose value is what the
  old map returns for the entry.
\<close>

definition updateResidues :: "residue_map \<Rightarrow> history_entry list \<Rightarrow> residue_map" where
  "updateResidues m h = fold (\<lambda>e newResidueMap. newResidueMap(e \<mapsto> map_get m e)) h Map.empty"

text \<open>
  \<open>historyEntry\<close> draws one row; all the model keeps of it is that it reads
  \<open>e.entry.id\<close>, which throws for \<open>undefined\<close>, and the row's number and residue.
\<close>

definition historyEntry :: "Residue option \<Rightarrow> nat \<Rightarrow> js_error + nat \<times> Residue" where
  "historyEntry e idx = (case e of None \<Rightarrow> Inl TypeError | Some r \<Rightarrow> Inr (idx, r))"

text \<open>
  One round of the loop of \<open>add\<close>: an entry that the map has keeps its value, another
  one gets a new \<open>Residue\<close>, which is stored in the map.
\<close>

definition add_residue :: "residue_map \<Rightarrow> history_entry \<Rightarrow>
    js_error + residue_map \<times> Residue option" where
  "add_residue m l =
     (if map_has m l then Inr (m, map_get m l)
      else (case new_Residue l of
              Inl err \<Rightarrow> Inl err
            | Inr residue \<Rightarrow> Inr (m(l \<mapsto> Some residue), Some residue)))"

text \<open>
  The loop of \<open>add\<close> from row \<open>i\<close> on, over the entries it draws. An exception leaves
  \<open>add\<close>, and with it \<open>render\<close>; the model keeps no map then.
\<close>

fun add_rows :: "residue_map \<Rightarrow> nat \<Rightarrow> history_entry list \<Rightarrow>
    js_error + residue_map \<times> (nat \<times> Residue) list" where
  "add_rows m i [] = Inr (m, [])"
| "add_rows m i (l # ls) =
     (case add_residue m l of
        Inl err \<Rightarrow> Inl err
      | Inr (m', residue) \<Rightarrow>
          (case historyEntry residue (i + 1) of
             Inl err \<Rightarrow> Inl err
           | Inr row \<Rightarrow>
               (case add_rows m' (i + 1) ls of
                  Inl err \<Rightarrow> Inl err
                | Inr (m'', rows) \<Rightarrow> Inr (m'', row # rows))))"

definition add :: "residue_map \<Rightarrow> history_entry list \<Rightarrow>
    js_error + residue_map \<times> (nat \<times> Residue) list" where
  "add m h = add_rows m 0 (take (min (length h) 10) h)"

section \<open>Notions of the specification\<close>

text \<open>The model entry id of a history entry: \<open>l.loci.structure.model.entry\<close>.\<close>

definition entry_model :: "history_entry \<Rightarrow> string" where
  "entry_model l = model_entry (model (loci_structure (loci l)))"

text \<open>
  The order of the specification on residue ids: by \<open>label_asym_id\<close>, then by
  \<open>struct_oper_id\<close>, both in the order of the collation, then by \<open>label_seq_id\<close>.
\<close>

definition selection_le ::
    "(string \<Rightarrow> string \<Rightarrow> int) \<Rightarrow> ResidueSelection \<Rightarrow> ResidueSelection \<Rightarrow> bool" where
  "selection_le lc a b \<longleftrightarrow>
     lc (label_asym_id a) (label_asym_id b) < 0 \<or>
     (label_asym_id a = label_asym_id b \<and>
      (lc (struct_oper_id a) (struct_oper_id b) < 0 \<or>
       (struct_oper_id a = struct_oper_id b \<and> label_seq_id a \<le> label_seq_id b)))"

text \<open>
  The exchanges of the specification, from the locations and the residues of the picks
  in history order: one for each pick whose set of exchanges is not empty.
\<close>

definition exchange_list :: "(location \<times> Residue) list \<Rightarrow> Exchange list" where
  "exchange_list picks =
     map (\<lambda>(loc, r). \<lparr>residue_id = residueId_at loc, allowed = exchanges r\<rparr>)
       (filter (\<lambda>(loc, r). exchanges r \<noteq> []) picks)"

section \<open>Example data\<close>

text \<open>
  A history entry that picks one atom: the entry's id, the model, the chain, the
  sequence number and the residue type.
\<close>

definition picked :: "string \<Rightarrow> string \<Rightarrow> string \<Rightarrow> int \<Rightarrow> string \<Rightarrow> history_entry" where
  "picked i mdl chain num rtype =
     \<lparr>entry_id = i,
      loci = \<lparr>loci_structure = \<lparr>model = \<lparr>model_entry = mdl\<rparr>\<rparr>,
              elements = [\<lparr>unit = \<lparr>unit_elements = [0], oper_list_ids = Some [''1''],
                                  atom_sites = [\<lparr>site_asym_id = chain, site_seq_id = num,
                                                  site_comp_id = rtype\<rparr>]\<rparr>,
                           indices = [0]\<rparr>]\<rparr>,
      label = i\<rparr>"

text \<open>The location of such an entry, and the residue that \<open>add\<close> makes for it.\<close>

definition picked_location :: "string \<Rightarrow> string \<Rightarrow> int \<Rightarrow> string \<Rightarrow> location" where
  "picked_location mdl chain num rtype =
     \<lparr>loc_structure = \<lparr>model = \<lparr>model_entry = mdl\<rparr>\<rparr>,
      loc_unit = \<lparr>unit_elements = [0], oper_list_ids = Some [''1''],
                  atom_sites = [\<lparr>site_asym_id = chain, site_seq_id = num,
                                  site_comp_id = rtype\<rparr>]\<rparr>,
      loc_element = 0\<rparr>"

definition picked_residue :: "string \<Rightarrow> string \<Rightarrow> string \<Rightarrow> int \<Rightarrow> string \<Rightarrow> Residue" where
  "picked_residue i mdl chain num rtype =
     \<lparr>entry = picked i mdl chain num rtype, exchanges = [rtype]\<rparr>"

text \<open>A map that holds the given residues under their entries, stored in this order.\<close>

definition map_holding :: "Residue list \<Rightarrow> residue_map" where
  "map_holding rs = fold (\<lambda>r m. m(entry r \<mapsto> Some r)) rs Map.empty"

text \<open>
  The example of the specification: three picks of one model, in the order A, B, C.
\<close>

definition motif_history :: "history_entry list" where
  "motif_history =
     [picked ''A'' ''1ABC'' ''A'' 5 ''ALA'', picked ''B'' ''1ABC'' ''A'' 2 ''GLY'',
      picked ''C'' ''1ABC'' ''B'' 1 ''SER'']"

definition motif_locations :: "location list" where
  "motif_locations =
     [picked_location ''1ABC'' ''A'' 5 ''ALA'', picked_location ''1ABC'' ''A'' 2 ''GLY'',
      picked_location ''1ABC'' ''B'' 1 ''SER'']"

definition motif_residues :: "Residue list" where
  "motif_residues =
     [picked_residue ''A'' ''1ABC'' ''A'' 5 ''ALA'', picked_residue ''B'' ''1ABC'' ''A'' 2 ''GLY'',
      picked_residue ''C'' ''1ABC'' ''B'' 1 ''SER'']"

text \<open>Two picks of two models, the second one a water molecule.\<close>

definition mixed_history :: "history_entry list" where
  "mixed_history =
     [picked ''A'' ''1ABC'' ''A'' 5 ''ALA'', picked ''W'' ''2XYZ'' ''D'' 0 ''HOH'']"

definition mixed_locations :: "location list" where
  "mixed_locations =
     [picked_location ''1ABC'' ''A'' 5 ''ALA'', picked_location ''2XYZ'' ''D'' 0 ''HOH'']"

definition mixed_residues :: "Residue list" where
  "mixed_residues =
     [picked_residue ''A'' ''1ABC'' ''A'' 5 ''ALA'', picked_residue ''W'' ''2XYZ'' ''D'' 0 ''HOH'']"

text \<open>Two picks of one model, the second one a water molecule.\<close>

definition hetero_history :: "history_entry list" where
  "hetero_history =
     [picked ''A'' ''1ABC'' ''A'' 5 ''ALA'', picked ''W'' ''1ABC'' ''D'' 0 ''HOH'']"

definition hetero_locations :: "location list" where
  "hetero_locations =
     [picked_location ''1ABC'' ''A'' 5 ''ALA'', picked_location ''1ABC'' ''D'' 0 ''HOH'']"

definition hetero_residues :: "Residue list" where
  "hetero_residues =
     [picked_residue ''A'' ''1ABC'' ''A'' 5 ''ALA'', picked_residue ''W'' ''1ABC'' ''D'' 0 ''HOH'']"

text \<open>
  Two picks of one model; the user has taken the only exchange of the second one away.
\<close>

definition short_history :: "history_entry list" where
  "short_history =
     [picked ''A'' ''1ABC'' ''A'' 5 ''ALA'', picked ''B'' ''1ABC'' ''A'' 2 ''GLY'']"

definition short_locations :: "location list" where
  "short_locations =
     [picked_location ''1ABC'' ''A'' 5 ''ALA'', picked_location ''1ABC'' ''A'' 2 ''GLY'']"

definition short_residues :: "Residue list" where
  "short_residues =
     [picked_residue ''A'' ''1ABC'' ''A'' 5 ''ALA'',
      toggleExchange (picked_residue ''B'' ''1ABC'' ''A'' 2 ''GLY'') ''GLY'']"

text \<open>
  Eleven picks of one chain, numbered from 11 down to 1, and the residues of the ten
  that the component draws.
\<close>

definition numbered :: "string \<Rightarrow> int \<Rightarrow> history_entry" where
  "numbered i num = picked i ''1ABC'' ''A'' num ''ALA''"

definition long_history :: "history_entry list" where
  "long_history =
     [numbered ''e11'' 11, numbered ''e10'' 10, numbered ''e09'' 9, numbered ''e08'' 8,
      numbered ''e07'' 7, numbered ''e06'' 6, numbered ''e05'' 5, numbered ''e04'' 4,
      numbered ''e03'' 3, numbered ''e02'' 2, numbered ''e01'' 1]"

definition long_locations :: "location list" where
  "long_locations =
     map (\<lambda>num. picked_location ''1ABC'' ''A'' num ''ALA'') [11, 10, 9, 8, 7, 6, 5, 4, 3, 2]"

definition long_residues :: "Residue list" where
  "long_residues = map (\<lambda>e. \<lparr>entry = e, exchanges = [''ALA'']\<rparr>) (take 10 long_history)"

text \<open>What \<open>submitSearch\<close> opens for the two picks of \<open>short_history\<close>.\<close>

definition short_query :: query where
  "short_query =
     \<lparr>query_type = ''terminal'', service = ''strucmotif'', data = Some ''1ABC'',
      residue_ids =
        [\<lparr>label_asym_id = ''A'', struct_oper_id = ''1'', label_seq_id = 2\<rparr>,
         \<lparr>label_asym_id = ''A'', struct_oper_id = ''1'', label_seq_id = 5\<rparr>],
      score_cutoff = 0,
      query_exchanges =
        [\<lparr>residue_id = \<lparr>label_asym_id = ''A'', struct_oper_id = ''1'', label_seq_id = 5\<rparr>,
          allowed = [''ALA'']\<rparr>]\<rparr>"

section \<open>Theorems\<close>

lemma set_set_add: "set (set_add v s) = insert v (set s)"
  by (auto simp: set_add_def)

lemma set_set_delete: "set (set_delete v s) = set s - {v}"
  by (simp add: set_delete_def)

lemma set_fold_set_add: "set (fold set_add xs p) = set p \<union> set xs"
  by (induction xs arbitrary: p) (auto simp: set_set_add)

lemma distinct_set_add: "distinct s \<Longrightarrow> distinct (set_add v s)"
  by (simp add: set_add_def)

lemma distinct_fold_set_add: "distinct p \<Longrightarrow> distinct (fold set_add xs p)"
  by (induction xs arbitrary: p) (auto simp: distinct_set_add)

lemma length_fold_set_add: "length (fold set_add xs []) = card (set xs)"
  using distinct_card [OF distinct_fold_set_add [of "[]" xs]]
  by (simp add: set_fold_set_add)

lemma fold_set_add_hd:
  "at_index (fold set_add xs (p # ps)) 0 = Some p"
  by (induction xs arbitrary: p ps) (auto simp: set_add_def)

lemma at_index_fold_set_add: "at_index (fold set_add xs []) 0 = at_index xs 0"
  by (cases xs) (auto simp: set_add_def fold_set_add_hd)

lemma collect_run:
  "map first_location es = map Inr locs \<Longrightarrow> map (map_get m) es = map Some rs \<Longrightarrow>
   collect m es (p, r, x) =
     Inr (fold set_add (map entry_model es) p, r @ map residueId_at locs,
          x @ exchange_list (zip locs rs))"
proof (induction es arbitrary: locs rs p r x)
  case Nil
  then show ?case by (simp add: exchange_list_def)
next
  case (Cons e es)
  from Cons.prems obtain loc locs' where locs: "locs = loc # locs'"
    "first_location e = Inr loc" "map first_location es = map Inr locs'"
    by (cases locs) auto
  from Cons.prems obtain res rs' where rs: "rs = res # rs'"
    "map_get m e = Some res" "map (map_get m) es = map Some rs'"
    by (cases rs) auto
  show ?case
    using locs(2) rs(2) Cons.IH [OF locs(3) rs(3)]
    by (simp add: locs(1) rs(1) exchange_list_def entry_model_def Let_def)
qed

lemma collect_length:
  "collect m es (p, r, x) = Inr (p', r', x') \<Longrightarrow> length r' = length r + length es"
  by (induction es arbitrary: p r x)
     (auto simp: Let_def split: sum.splits option.splits if_splits)

lemma mset_insert_sorted: "mset (insert_sorted c x xs) = add_mset x (mset xs)"
  by (induction xs) auto

lemma mset_array_sort: "mset (array_sort c xs) = mset xs"
  by (induction xs) (auto simp: array_sort_def mset_insert_sorted)

lemma length_array_sort: "length (array_sort c xs) = length xs"
  using mset_array_sort [of c xs] by (metis size_mset)

lemma set_insert_sorted: "set (insert_sorted c x xs) = insert x (set xs)"
  by (induction xs) auto

lemma sorted_insert_sorted:
  assumes total: "\<And>a b. c a b \<le> 0 \<or> c b a \<le> 0"
    and trans: "\<And>a b d. c a b \<le> 0 \<Longrightarrow> c b d \<le> 0 \<Longrightarrow> c a d \<le> 0"
  shows "sorted_wrt (\<lambda>a b. c a b \<le> 0) xs \<Longrightarrow>
         sorted_wrt (\<lambda>a b. c a b \<le> 0) (insert_sorted c x xs)"
proof (induction xs)
  case Nil
  then show ?case by simp
next
  case (Cons y ys)
  show ?case
  proof (cases "c x y \<le> 0")
    case True
    with Cons.prems show ?thesis by (auto intro: trans)
  next
    case False
    with total [of x y] have "c y x \<le> 0" by simp
    with False Cons show ?thesis by (auto simp: set_insert_sorted)
  qed
qed

lemma sorted_array_sort:
  assumes total: "\<And>a b. c a b \<le> 0 \<or> c b a \<le> 0"
    and trans: "\<And>a b d. c a b \<le> 0 \<Longrightarrow> c b d \<le> 0 \<Longrightarrow> c a d \<le> 0"
  shows "sorted_wrt (\<lambda>a b. c a b \<le> 0) (array_sort c xs)"
proof (induction xs)
  case Nil
  then show ?case by (simp add: array_sort_def)
next
  case (Cons x xs)
  have "array_sort c (x # xs) = insert_sorted c x (array_sort c xs)"
    by (simp add: array_sort_def)
  with Cons sorted_insert_sorted [of c "array_sort c xs" x, OF total trans]
  show ?case by simp
qed

lemma sortResidueIds_le:
  assumes "linear_collation lc"
  shows "sortResidueIds lc a b \<le> 0 \<longleftrightarrow> selection_le lc a b"
proof -
  have z: "\<And>s t. lc s t = 0 \<longleftrightarrow> s = t" and n: "\<And>s t. lc s t < 0 \<longleftrightarrow> 0 < lc t s"
    using assms by (auto simp: linear_collation_def)
  have le: "\<And>s t. s \<noteq> t \<Longrightarrow> lc s t \<le> 0 \<longleftrightarrow> lc s t < 0"
    using z by (simp add: order_le_less)
  have irr: "\<not> lc s s < 0" for s
  proof -
    have "lc s s = 0" using z by simp
    then show ?thesis by simp
  qed
  show ?thesis
    by (auto simp: sortResidueIds_def selection_le_def le irr)
qed

lemma submitSearch_run:
  assumes "map first_location (considered h) = map Inr locs"
    and "map (map_get m) (considered h) = map Some rs"
  shows "submitSearch lc m h =
     Inr (if 1 < card (entry_model ` set (considered h)) then Warn multi_model_warning
          else if \<exists>loc \<in> set locs. residue_label_seq_id loc = 0 then Warn polymer_warning
          else Open \<lparr>query_type = ''terminal'', service = ''strucmotif'',
                     data = at_index (map entry_model (considered h)) 0,
                     residue_ids = array_sort (sortResidueIds lc) (map residueId_at locs),
                     score_cutoff = 0,
                     query_exchanges = exchange_list (zip locs rs)\<rparr>)"
proof -
  have len: "length locs = length (considered h)"
    using assms(1) by (metis length_map)
  have "length (considered h) \<le> MAX_MOTIF_SIZE"
    by (simp add: considered_def)
  with len have small: "\<not> MAX_MOTIF_SIZE < length locs" by simp
  have seq: "(filter ((\<lambda>v. label_seq_id v = 0) \<circ> residueId_at) locs = []) =
             (\<forall>loc \<in> set locs. residue_label_seq_id loc \<noteq> 0)"
    by (auto simp: filter_empty_conv residueId_at_def Let_def)
  show ?thesis
    using small
    by (simp add: submitSearch_def collect_run [OF assms] length_fold_set_add
        at_index_fold_set_add seq)
qed

lemma char_compare_zero: "char_compare a b = 0 \<longleftrightarrow> a = b"
  by (induction a b rule: char_compare.induct) auto

lemma char_compare_swap: "char_compare a b < 0 \<longleftrightarrow> 0 < char_compare b a"
  by (induction a b rule: char_compare.induct) auto

lemma char_compare_trans:
  "char_compare a b < 0 \<Longrightarrow> char_compare b c < 0 \<Longrightarrow> char_compare a c < 0"
proof (induction a arbitrary: b c)
  case Nil
  then show ?case by (cases b; cases c) auto
next
  case (Cons x xs)
  from Cons.prems obtain y ys where b: "b = y # ys" by (cases b) auto
  from Cons.prems b obtain z zs where c: "c = z # zs" by (cases c) auto
  from Cons.prems Cons.IH [of ys zs] show ?case
    unfolding b c by (auto split: if_splits)
qed

lemma char_compare_linear: "linear_collation char_compare"
  unfolding linear_collation_def
  using char_compare_zero char_compare_swap char_compare_trans by blast

lemma selection_le_total:
  assumes "linear_collation lc"
  shows "selection_le lc a b \<or> selection_le lc b a"
proof -
  have z: "\<And>s t. lc s t = 0 \<longleftrightarrow> s = t" and n: "\<And>s t. lc s t < 0 \<longleftrightarrow> 0 < lc t s"
    using assms by (auto simp: linear_collation_def)
  have tri: "lc s t < 0 \<or> s = t \<or> lc t s < 0" for s t
    using z [of s t] n [of t s] by linarith
  show ?thesis
    using tri [of "label_asym_id a" "label_asym_id b"]
      tri [of "struct_oper_id a" "struct_oper_id b"]
    by (auto simp: selection_le_def)
qed

lemma selection_le_trans:
  assumes "linear_collation lc" "selection_le lc a b" "selection_le lc b d"
  shows "selection_le lc a d"
proof -
  have t: "\<And>s t u. lc s t < 0 \<Longrightarrow> lc t u < 0 \<Longrightarrow> lc s u < 0"
    using assms(1) unfolding linear_collation_def by blast
  show ?thesis
    using assms(2,3) t [of "label_asym_id a" "label_asym_id b" "label_asym_id d"]
      t [of "struct_oper_id a" "struct_oper_id b" "struct_oper_id d"]
    by (auto simp: selection_le_def)
qed

lemma sorted_sortResidueIds:
  assumes "linear_collation lc"
  shows "sorted_wrt (selection_le lc) (array_sort (sortResidueIds lc) xs)"
proof -
  have "sorted_wrt (\<lambda>a b. sortResidueIds lc a b \<le> 0) (array_sort (sortResidueIds lc) xs)"
  proof (rule sorted_array_sort)
    show "sortResidueIds lc a b \<le> 0 \<or> sortResidueIds lc b a \<le> 0" for a b
      using selection_le_total [OF assms] by (simp add: sortResidueIds_le [OF assms])
    show "sortResidueIds lc a b \<le> 0 \<Longrightarrow> sortResidueIds lc b d \<le> 0 \<Longrightarrow>
          sortResidueIds lc a d \<le> 0" for a b d
      using selection_le_trans [OF assms] by (simp add: sortResidueIds_le [OF assms])
  qed
  then show ?thesis by (simp add: sortResidueIds_le [OF assms])
qed

subsection \<open>The checks of \<open>submitSearch\<close>\<close>

lemma warnings_differ:
  "multi_model_warning \<noteq> polymer_warning" "multi_model_warning \<noteq> max_size_warning"
  "polymer_warning \<noteq> max_size_warning"
  by (simp_all add: multi_model_warning_def polymer_warning_def max_size_warning_def)

lemma two_models:
  assumes "a \<in> set es" "b \<in> set es" "entry_model a \<noteq> entry_model b"
  shows "1 < card (entry_model ` set es)"
proof -
  have "{entry_model a, entry_model b} \<subseteq> entry_model ` set es"
    using assms(1,2) by auto
  then have "card {entry_model a, entry_model b} \<le> card (entry_model ` set es)"
    by (intro card_mono) auto
  with assms(3) show ?thesis by simp
qed

lemma one_model:
  assumes "\<forall>e \<in> set es. entry_model e = mid"
  shows "\<not> 1 < card (entry_model ` set es)"
proof -
  have "entry_model ` set es \<subseteq> {mid}" using assms by auto
  then have "card (entry_model ` set es) \<le> card {mid}"
    by (intro card_mono) auto
  then show ?thesis by simp
qed

lemma one_model_first:
  assumes "\<forall>e \<in> set es. entry_model e = mid" "es \<noteq> []"
  shows "at_index (map entry_model es) 0 = Some mid"
  using assms by (cases es) auto

lemma considered_long: "MAX_MOTIF_SIZE < length h \<Longrightarrow> considered h = take 10 h"
  by (simp add: considered_def MAX_MOTIF_SIZE_def)

lemma considered_short: "length h \<le> MAX_MOTIF_SIZE \<Longrightarrow> considered h = h"
  by (simp add: considered_def)

lemma considered_take:
  "MAX_MOTIF_SIZE \<le> length h \<Longrightarrow> considered (take 10 h @ later) = take 10 h"
  by (simp add: considered_def MAX_MOTIF_SIZE_def)

subsection \<open>The residue map\<close>

text \<open>
  After \<open>add\<close> has drawn the rows, the map holds a \<open>Residue\<close> for every entry that
  \<open>submitSearch\<close> considers: the user reaches \<open>submitSearch\<close> through the menu that
  \<open>add\<close> draws, so the theorems on \<open>submitSearch\<close> take this for granted.
\<close>

lemma add_residue_keeps:
  "add_residue m l = Inr (m', r) \<Longrightarrow> m' l = Some r \<and> (\<forall>e. m e \<noteq> None \<longrightarrow> m' e = m e)"
  by (auto simp: add_residue_def map_has_def map_get_def split: if_splits sum.splits)

lemma add_rows_tracks:
  "add_rows m i es = Inr (m', rows) \<Longrightarrow>
     (\<forall>e \<in> set es. \<exists>r. map_get m' e = Some r) \<and> (\<forall>e. m e \<noteq> None \<longrightarrow> m' e = m e)"
proof (induction es arbitrary: m i rows)
  case Nil
  then show ?case by simp
next
  case (Cons l ls)
  from Cons.prems obtain m1 r1 where a: "add_residue m l = Inr (m1, r1)"
    by (auto split: sum.splits)
  from Cons.prems a obtain row where h: "historyEntry r1 (i + 1) = Inr row"
    by (auto split: sum.splits)
  from Cons.prems a h obtain rows' where r: "add_rows m1 (i + 1) ls = Inr (m', rows')"
    by (auto split: sum.splits)
  from h obtain res where res: "r1 = Some res"
    by (auto simp: historyEntry_def split: option.splits)
  note k = add_residue_keeps [OF a] and ih = Cons.IH [OF r]
  have "m1 l \<noteq> None" using k by simp
  then have "m' l = Some (Some res)" using ih k res by simp
  then have "map_get m' l = Some res" by (simp add: map_get_def)
  moreover have "\<forall>e. m e \<noteq> None \<longrightarrow> m' e = m e"
    using k ih by (metis)
  ultimately show ?case using ih by auto
qed

lemma add_tracks_considered:
  assumes "add m h = Inr (m', rows)"
  shows "\<exists>rs. map (map_get m') (considered h) = map Some rs"
proof -
  have c: "take (min (length h) 10) h = considered h"
    by (simp add: considered_def MAX_MOTIF_SIZE_def min.commute)
  have "\<forall>e \<in> set (considered h). \<exists>r. map_get m' e = Some r"
    using add_rows_tracks [of m 0 "considered h" m' rows] assms by (simp add: add_def c)
  then have "\<forall>e \<in> set (considered h). map_get m' e = Some (the (map_get m' e))"
    by auto
  then have "map (map_get m') (considered h) = map Some (map (\<lambda>e. the (map_get m' e)) (considered h))"
    by simp
  then show ?thesis by blast
qed

lemma first_location_first:
  assumes "elements (loci e) = el # els" and "indices el = k # ks"
    and "k < length (unit_elements (unit el))"
    and "unit_elements (unit el) ! k < length (atom_sites (unit el))"
  shows "first_location e =
           Inr \<lparr>loc_structure = loci_structure (loci e), loc_unit = unit el,
                loc_element = unit_elements (unit el) ! k\<rparr>"
proof -
  have at: "i < length xs \<Longrightarrow> at_index xs i = Some (xs ! i)" for xs :: "nat list" and i
    by (induction xs i rule: at_index.induct) auto
  show ?thesis
    using assms by (simp add: first_location_def getAt_def at)
qed

lemma updateResidues_lookup:
  "updateResidues m h e = (if e \<in> set h then Some (map_get m e) else None)"
proof -
  have "fold (\<lambda>e n. n(e \<mapsto> map_get m e)) h n0 e =
          (if e \<in> set h then Some (map_get m e) else n0 e)" for n0
    by (induction h arbitrary: n0) auto
  then show ?thesis by (simp add: updateResidues_def)
qed

lemma updateResidues_keys: "dom (updateResidues m h) = set h"
  by (auto simp: updateResidues_lookup dom_def)

lemma updateResidues_keeps:
  "e \<in> set h \<Longrightarrow> m e = Some v \<Longrightarrow> updateResidues m h e = Some v"
  by (simp add: updateResidues_lookup map_get_def)

lemma updateResidues_untracked:
  "e \<in> set h \<Longrightarrow> m e = None \<Longrightarrow> updateResidues m h e = Some None"
  by (simp add: updateResidues_lookup map_get_def)

subsection \<open>The example data\<close>

lemma motif_located: "map first_location motif_history = map Inr motif_locations"
  by (simp add: motif_history_def motif_locations_def picked_def picked_location_def
      first_location_def getAt_def)

lemma motif_tracked:
  "map (map_get (map_holding motif_residues)) motif_history = map Some motif_residues"
  by (simp add: motif_history_def motif_residues_def picked_residue_def picked_def
      map_holding_def map_get_def)

lemma mixed_located: "map first_location mixed_history = map Inr mixed_locations"
  by (simp add: mixed_history_def mixed_locations_def picked_def picked_location_def
      first_location_def getAt_def)

lemma mixed_tracked:
  "map (map_get (map_holding mixed_residues)) mixed_history = map Some mixed_residues"
  by (simp add: mixed_history_def mixed_residues_def picked_residue_def picked_def
      map_holding_def map_get_def)

lemma hetero_located: "map first_location hetero_history = map Inr hetero_locations"
  by (simp add: hetero_history_def hetero_locations_def picked_def picked_location_def
      first_location_def getAt_def)

lemma hetero_tracked:
  "map (map_get (map_holding hetero_residues)) hetero_history = map Some hetero_residues"
  by (simp add: hetero_history_def hetero_residues_def picked_residue_def picked_def
      map_holding_def map_get_def)

lemma short_located: "map first_location short_history = map Inr short_locations"
  by (simp add: short_history_def short_locations_def picked_def picked_location_def
      first_location_def getAt_def)

lemma short_tracked:
  "map (map_get (map_holding short_residues)) short_history = map Some short_residues"
  by (simp add: short_history_def short_residues_def picked_residue_def picked_def
      map_holding_def map_get_def toggleExchange_def)

lemma long_located: "map first_location (take 10 long_history) = map Inr long_locations"
  by (simp add: long_history_def long_locations_def numbered_def picked_def picked_location_def
      first_location_def getAt_def)

lemma long_tracked:
  "map (map_get (map_holding long_residues)) (take 10 long_history) = map Some long_residues"
  by (simp add: long_history_def long_residues_def numbered_def picked_def
      map_holding_def map_get_def)

lemma motif_submitted:
  "submitSearch char_compare (map_holding motif_residues) motif_history =
     Inr (Open \<lparr>query_type = ''terminal'', service = ''strucmotif'', data = Some ''1ABC'',
        residue_ids =
          [\<lparr>label_asym_id = ''A'', struct_oper_id = ''1'', label_seq_id = 2\<rparr>,
           \<lparr>label_asym_id = ''A'', struct_oper_id = ''1'', label_seq_id = 5\<rparr>,
           \<lparr>label_asym_id = ''B'', struct_oper_id = ''1'', label_seq_id = 1\<rparr>],
        score_cutoff = 0,
        query_exchanges =
          [\<lparr>residue_id = \<lparr>label_asym_id = ''A'', struct_oper_id = ''1'', label_seq_id = 5\<rparr>,
            allowed = [''ALA'']\<rparr>,
           \<lparr>residue_id = \<lparr>label_asym_id = ''A'', struct_oper_id = ''1'', label_seq_id = 2\<rparr>,
            allowed = [''GLY'']\<rparr>,
           \<lparr>residue_id = \<lparr>label_asym_id = ''B'', struct_oper_id = ''1'', label_seq_id = 1\<rparr>,
            allowed = [''SER'']\<rparr>]\<rparr>)"
proof -
  have c: "considered motif_history = motif_history"
    by (rule considered_short) (simp add: motif_history_def MAX_MOTIF_SIZE_def)
  show ?thesis
    by (simp add: submitSearch_run [of motif_history, unfolded c, OF motif_located motif_tracked])
       (simp add: motif_history_def motif_locations_def motif_residues_def
        picked_def picked_location_def picked_residue_def entry_model_def
        residue_label_seq_id_def site_at_def residueId_at_def chain_label_asym_id_def
        unit_pdbx_struct_oper_list_ids_def array_sort_def sortResidueIds_def
        exchange_list_def)
qed

lemma short_submitted:
  "submitSearch char_compare (map_holding short_residues) short_history = Inr (Open short_query)"
proof -
  have c: "considered short_history = short_history"
    by (rule considered_short) (simp add: short_history_def MAX_MOTIF_SIZE_def)
  show ?thesis
    by (simp add: submitSearch_run [of short_history, unfolded c, OF short_located short_tracked])
       (simp add: short_history_def short_locations_def short_residues_def short_query_def
        picked_def picked_location_def picked_residue_def entry_model_def
        residue_label_seq_id_def site_at_def residueId_at_def chain_label_asym_id_def
        unit_pdbx_struct_oper_list_ids_def array_sort_def sortResidueIds_def
        exchange_list_def toggleExchange_def hasExchange_def set_has_def set_delete_def)
qed

subsection \<open>The claims\<close>

text \<open>
  C1: for a history of 3 to 10 entries that all resolve to a location, all have a
  \<open>Residue\<close> in the map, all belong to the model \<open>mid\<close> and all have a
  \<open>label_seq_id\<close> other than 0, \<open>submitSearch\<close> opens a query for \<open>mid\<close> whose
  \<open>residue_ids\<close> are the residue ids of the entries, one for each entry, sorted by
  \<open>label_asym_id\<close>, then \<open>struct_oper_id\<close>, then \<open>label_seq_id\<close>. The strings are
  compared by the collation \<open>lc\<close>, which stands for \<open>localeCompare\<close>.
\<close>

theorem submitSearch_sorted:
  assumes "linear_collation lc"
    and "MIN_MOTIF_SIZE \<le> length h" and "length h \<le> MAX_MOTIF_SIZE"
    and "map first_location h = map Inr locs"
    and "map (map_get m) h = map Some rs"
    and "\<forall>e \<in> set h. entry_model e = mid"
    and "\<forall>loc \<in> set locs. residue_label_seq_id loc \<noteq> 0"
  shows "\<exists>q. submitSearch lc m h = Inr (Open q)
             \<and> data q = Some mid
             \<and> length (residue_ids q) = length h
             \<and> mset (residue_ids q) = mset (map residueId_at locs)
             \<and> sorted_wrt (selection_le lc) (residue_ids q)"
proof -
  have c: "considered h = h" by (rule considered_short [OF assms(3)])
  have ne: "h \<noteq> []" using assms(2) by (auto simp: MIN_MOTIF_SIZE_def)
  have len: "length locs = length h"
    using arg_cong [OF assms(4), of length] by simp
  let ?q = "\<lparr>query_type = ''terminal'', service = ''strucmotif'', data = Some mid,
             residue_ids = array_sort (sortResidueIds lc) (map residueId_at locs),
             score_cutoff = 0, query_exchanges = exchange_list (zip locs rs)\<rparr>"
  have "submitSearch lc m h = Inr (Open ?q)"
    using assms(7) one_model [OF assms(6)] one_model_first [OF assms(6) ne]
    by (simp add: submitSearch_run [of h locs m rs, unfolded c, OF assms(4,5)])
  moreover have "length (residue_ids ?q) = length h"
    by (simp add: length_array_sort len)
  moreover have "mset (residue_ids ?q) = mset (map residueId_at locs)"
    by (simp add: mset_array_sort)
  moreover have "sorted_wrt (selection_le lc) (residue_ids ?q)"
    by (simp add: sorted_sortResidueIds [OF assms(1)])
  ultimately show ?thesis by (intro exI [of _ ?q]) simp
qed

theorem submitSearch_sorted_witness:
  "map first_location motif_history = map Inr motif_locations
   \<and> map (map_get (map_holding motif_residues)) motif_history = map Some motif_residues
   \<and> map entry_model motif_history = [''1ABC'', ''1ABC'', ''1ABC'']
   \<and> map residue_label_seq_id motif_locations = [5, 2, 1]
   \<and> (\<exists>q. submitSearch char_compare (map_holding motif_residues) motif_history = Inr (Open q)
          \<and> data q = Some ''1ABC''
          \<and> length (residue_ids q) = 3
          \<and> mset (residue_ids q) = mset (map residueId_at motif_locations)
          \<and> sorted_wrt (selection_le char_compare) (residue_ids q))"
proof -
  have models: "map entry_model motif_history = [''1ABC'', ''1ABC'', ''1ABC'']"
    by (simp add: motif_history_def picked_def entry_model_def)
  have seqs: "map residue_label_seq_id motif_locations = [5, 2, 1]"
    by (simp add: motif_locations_def picked_location_def residue_label_seq_id_def site_at_def)
  have h1: "MIN_MOTIF_SIZE \<le> length motif_history"
    by (simp add: MIN_MOTIF_SIZE_def motif_history_def)
  have h2: "length motif_history \<le> MAX_MOTIF_SIZE"
    by (simp add: MAX_MOTIF_SIZE_def motif_history_def)
  have h3: "\<forall>e \<in> set motif_history. entry_model e = ''1ABC''"
    by (simp add: motif_history_def picked_def entry_model_def)
  have h4: "\<forall>loc \<in> set motif_locations. residue_label_seq_id loc \<noteq> 0"
    by (simp add: motif_locations_def picked_location_def residue_label_seq_id_def site_at_def)
  have len: "length motif_history = 3" by (simp add: motif_history_def)
  show ?thesis
    using submitSearch_sorted [OF char_compare_linear h1 h2 motif_located motif_tracked h3 h4]
      motif_located motif_tracked models seqs
    by (simp add: len)
qed

text \<open>
  C2: when two of the considered entries belong to different models, \<open>submitSearch\<close>
  logs the warning about several models and opens no query, whatever the sequence
  numbers and the number of entries are: this check comes first. The entries must
  resolve to a location and have a \<open>Residue\<close> in the map, which the loop reads before any
  check is made.
\<close>

theorem submitSearch_multi_model:
  assumes "map first_location (considered h) = map Inr locs"
    and "map (map_get m) (considered h) = map Some rs"
    and "a \<in> set (considered h)" and "b \<in> set (considered h)"
    and "entry_model a \<noteq> entry_model b"
  shows "submitSearch lc m h = Inr (Warn multi_model_warning)"
  using two_models [OF assms(3,4,5)] by (simp add: submitSearch_run [OF assms(1,2)])

theorem submitSearch_multi_model_witness:
  "map first_location mixed_history = map Inr mixed_locations
   \<and> map (map_get (map_holding mixed_residues)) mixed_history = map Some mixed_residues
   \<and> map entry_model mixed_history = [''1ABC'', ''2XYZ'']
   \<and> map residue_label_seq_id mixed_locations = [5, 0]
   \<and> submitSearch char_compare (map_holding mixed_residues) mixed_history =
       Inr (Warn multi_model_warning)"
proof -
  have c: "considered mixed_history = mixed_history"
    by (rule considered_short) (simp add: mixed_history_def MAX_MOTIF_SIZE_def)
  have models: "map entry_model mixed_history = [''1ABC'', ''2XYZ'']"
    by (simp add: mixed_history_def picked_def entry_model_def)
  have seqs: "map residue_label_seq_id mixed_locations = [5, 0]"
    by (simp add: mixed_locations_def picked_location_def residue_label_seq_id_def site_at_def)
  have a: "picked ''A'' ''1ABC'' ''A'' 5 ''ALA'' \<in> set (considered mixed_history)"
    unfolding c by (simp add: mixed_history_def)
  have b: "picked ''W'' ''2XYZ'' ''D'' 0 ''HOH'' \<in> set (considered mixed_history)"
    unfolding c by (simp add: mixed_history_def)
  have ne: "entry_model (picked ''A'' ''1ABC'' ''A'' 5 ''ALA'') \<noteq>
            entry_model (picked ''W'' ''2XYZ'' ''D'' 0 ''HOH'')"
    by (simp add: picked_def entry_model_def)
  show ?thesis
    using submitSearch_multi_model [of mixed_history mixed_locations
        "map_holding mixed_residues" mixed_residues _ _ char_compare, unfolded c,
        OF mixed_located mixed_tracked a [unfolded c] b [unfolded c] ne]
      mixed_located mixed_tracked models seqs
    by simp
qed

text \<open>
  C3: when some considered entry has the \<open>label_seq_id\<close> 0, \<open>submitSearch\<close> opens no
  query: it logs the warning about polymeric entities if the considered entries belong
  to one model, and the warning about several models otherwise, since that check comes
  before this one. The two warnings differ.
\<close>

theorem submitSearch_non_polymeric:
  assumes "map first_location (considered h) = map Inr locs"
    and "map (map_get m) (considered h) = map Some rs"
    and "loc \<in> set locs" and "residue_label_seq_id loc = 0"
  shows "submitSearch lc m h =
           Inr (Warn (if 1 < card (entry_model ` set (considered h))
                      then multi_model_warning else polymer_warning))
         \<and> multi_model_warning \<noteq> polymer_warning"
  using assms(3,4) warnings_differ(1) by (auto simp: submitSearch_run [OF assms(1,2)])

theorem submitSearch_non_polymeric_witness:
  "map first_location hetero_history = map Inr hetero_locations
   \<and> map (map_get (map_holding hetero_residues)) hetero_history = map Some hetero_residues
   \<and> map entry_model hetero_history = [''1ABC'', ''1ABC'']
   \<and> map residue_label_seq_id hetero_locations = [5, 0]
   \<and> submitSearch char_compare (map_holding hetero_residues) hetero_history =
       Inr (Warn polymer_warning)"
proof -
  have c: "considered hetero_history = hetero_history"
    by (rule considered_short) (simp add: hetero_history_def MAX_MOTIF_SIZE_def)
  have models: "map entry_model hetero_history = [''1ABC'', ''1ABC'']"
    by (simp add: hetero_history_def picked_def entry_model_def)
  have seqs: "map residue_label_seq_id hetero_locations = [5, 0]"
    by (simp add: hetero_locations_def picked_location_def residue_label_seq_id_def site_at_def)
  have w: "picked_location ''1ABC'' ''D'' 0 ''HOH'' \<in> set hetero_locations"
    by (simp add: hetero_locations_def)
  have z: "residue_label_seq_id (picked_location ''1ABC'' ''D'' 0 ''HOH'') = 0"
    by (simp add: picked_location_def residue_label_seq_id_def site_at_def)
  have one: "entry_model ` set hetero_history = {''1ABC''}"
    by (simp add: hetero_history_def picked_def entry_model_def)
  show ?thesis
    using submitSearch_non_polymeric [of hetero_history hetero_locations
        "map_holding hetero_residues" hetero_residues _ char_compare, unfolded c,
        OF hetero_located hetero_tracked w z]
      hetero_located hetero_tracked models seqs
    by (simp add: one)
qed

text \<open>
  C4: of a history of more than 10 entries \<open>submitSearch\<close> considers the first 10, in
  the order of the history. When these are valid picks of one model, the query has
  exactly 10 residue ids, those of the first 10 entries, and the entries after the
  tenth change nothing: any other entries \<open>later\<close> in their place give the same result.
\<close>

theorem submitSearch_first_ten:
  assumes "MAX_MOTIF_SIZE < length h"
    and "map first_location (take 10 h) = map Inr locs"
    and "map (map_get m) (take 10 h) = map Some rs"
    and "\<forall>e \<in> set (take 10 h). entry_model e = mid"
    and "\<forall>loc \<in> set locs. residue_label_seq_id loc \<noteq> 0"
  shows "considered h = take 10 h
         \<and> submitSearch lc m h =
             Inr (Open \<lparr>query_type = ''terminal'', service = ''strucmotif'',
                        data = Some mid,
                        residue_ids = array_sort (sortResidueIds lc) (map residueId_at locs),
                        score_cutoff = 0,
                        query_exchanges = exchange_list (zip locs rs)\<rparr>)
         \<and> length (array_sort (sortResidueIds lc) (map residueId_at locs)) = 10
         \<and> mset (array_sort (sortResidueIds lc) (map residueId_at locs)) =
             mset (map residueId_at locs)
         \<and> submitSearch lc m (take 10 h @ later) = submitSearch lc m h"
proof -
  have c: "considered h = take 10 h" by (rule considered_long [OF assms(1)])
  have ne: "take 10 h \<noteq> []" using assms(1) by auto
  have len: "length locs = 10"
    using assms(1) arg_cong [OF assms(2), of length] by (simp add: MAX_MOTIF_SIZE_def)
  have "submitSearch lc m (take 10 h @ later) = submitSearch lc m h"
    using assms(1) by (simp add: submitSearch_def considered_take c)
  then show ?thesis
    using assms(5) one_model [OF assms(4)] one_model_first [OF assms(4) ne] len
    by (simp add: c submitSearch_run [of h locs m rs, unfolded c, OF assms(2,3)]
        length_array_sort mset_array_sort)
qed

theorem submitSearch_first_ten_witness:
  "length long_history = 11
   \<and> map first_location (take 10 long_history) = map Inr long_locations
   \<and> map (map_get (map_holding long_residues)) (take 10 long_history) = map Some long_residues
   \<and> considered long_history = take 10 long_history
   \<and> submitSearch char_compare (map_holding long_residues) long_history =
       Inr (Open \<lparr>query_type = ''terminal'', service = ''strucmotif'',
                  data = Some ''1ABC'',
                  residue_ids =
                    array_sort (sortResidueIds char_compare) (map residueId_at long_locations),
                  score_cutoff = 0,
                  query_exchanges = exchange_list (zip long_locations long_residues)\<rparr>)
   \<and> length (array_sort (sortResidueIds char_compare) (map residueId_at long_locations)) = 10
   \<and> submitSearch char_compare (map_holding long_residues) (take 10 long_history @ mixed_history) =
       submitSearch char_compare (map_holding long_residues) long_history"
proof -
  have len: "length long_history = 11" by (simp add: long_history_def)
  have h1: "MAX_MOTIF_SIZE < length long_history"
    by (simp add: len MAX_MOTIF_SIZE_def)
  have h4: "\<forall>e \<in> set (take 10 long_history). entry_model e = ''1ABC''"
    by (simp add: long_history_def numbered_def picked_def entry_model_def)
  have h5: "\<forall>loc \<in> set long_locations. residue_label_seq_id loc \<noteq> 0"
    by (simp add: long_locations_def picked_location_def residue_label_seq_id_def site_at_def)
  show ?thesis
    using submitSearch_first_ten [OF h1 long_located long_tracked h4 h5,
        of char_compare mixed_history] len long_located long_tracked
    by simp
qed

text \<open>
  C5: \<open>submitSearch\<close> never logs the warning about the maximum motif size: when the
  loop returns, \<open>residueIds\<close> is not longer than \<open>MAX_MOTIF_SIZE\<close>, for every map and
  every history.
\<close>

theorem max_size_warning_unreachable:
  "submitSearch lc m h \<noteq> Inr (Warn max_size_warning)
   \<and> (case collect m (considered h) ([], [], []) of
        Inl err \<Rightarrow> True
      | Inr (pdbId, residueIds, exs) \<Rightarrow> \<not> length residueIds > MAX_MOTIF_SIZE)"
proof (cases "collect m (considered h) ([], [], [])")
  case (Inl err)
  then show ?thesis by (simp add: submitSearch_def)
next
  case (Inr acc)
  obtain p r x where acc: "acc = (p, r, x)" by (cases acc) auto
  have "length r = length (considered h)"
    using collect_length [of m "considered h" "[]" "[]" "[]" p r x] Inr acc by simp
  then have "\<not> length r > MAX_MOTIF_SIZE" by (simp add: considered_def)
  then show ?thesis
    using Inr acc warnings_differ by (simp add: submitSearch_def)
qed

text \<open>
  C6: \<open>updateResidues\<close> gives the new map the entries of the history as its keys
  (\<open>updateResidues_keys\<close>) and keeps the \<open>Residue\<close> of an entry that the old map holds
  (\<open>updateResidues_keeps\<close>), but an entry that the old map does not hold is stored with
  the value \<open>undefined\<close>, and no \<open>Residue\<close> is made for it. With eleven picks the
  component draws ten rows and holds ten residues. When the first pick is removed, the
  eleventh pick becomes a key of the new map with the value \<open>undefined\<close>; \<open>add\<close> then
  finds the key, makes no \<open>Residue\<close>, and drawing the row throws.
\<close>

theorem updateResidues_undefined_entry:
  "add Map.empty long_history =
     Inr (map_holding long_residues, zip [1, 2, 3, 4, 5, 6, 7, 8, 9, 10] long_residues)
   \<and> map_has (map_holding long_residues) (numbered ''e01'' 1) = False
   \<and> updateResidues (map_holding long_residues) (tl long_history) (numbered ''e01'' 1) =
       Some None
   \<and> add (updateResidues (map_holding long_residues) (tl long_history)) (tl long_history) =
       Inl TypeError"
proof -
  have first: "add Map.empty long_history =
     Inr (map_holding long_residues, zip [1, 2, 3, 4, 5, 6, 7, 8, 9, 10] long_residues)"
    by (simp add: add_def long_history_def long_residues_def numbered_def picked_def
      map_holding_def add_residue_def map_has_def map_get_def new_Residue_def
      first_location_def getAt_def atom_label_comp_id_def site_at_def set_add_def
      historyEntry_def)
  have untracked: "map_has (map_holding long_residues) (numbered ''e01'' 1) = False"
    by (simp add: map_has_def long_history_def long_residues_def numbered_def picked_def
      map_holding_def)
  have stored: "updateResidues (map_holding long_residues) (tl long_history)
      (numbered ''e01'' 1) = Some None"
    by (simp add: updateResidues_lookup long_history_def long_residues_def numbered_def
      picked_def map_holding_def map_get_def)
  have second: "add (updateResidues (map_holding long_residues) (tl long_history))
      (tl long_history) = Inl TypeError"
    by (simp add: add_def add_residue_def map_has_def updateResidues_lookup historyEntry_def
      long_history_def long_residues_def numbered_def picked_def map_holding_def map_get_def)
  show ?thesis using first untracked stored second by simp
qed

text \<open>
  C7: the exchanges of the query that \<open>submitSearch\<close> opens are those of the
  considered picks whose set of exchanges is not empty, in the order of the history.
  Each has the residue id of its pick, as the loop built it, and as \<open>allowed\<close> the
  members of the pick's set in the order of the set.
\<close>

theorem submitSearch_exchanges:
  assumes "submitSearch lc m h = Inr (Open q)"
    and "map first_location (considered h) = map Inr locs"
    and "map (map_get m) (considered h) = map Some rs"
  shows "query_exchanges q =
           map (\<lambda>(loc, r). \<lparr>residue_id = residueId_at loc, allowed = exchanges r\<rparr>)
             (filter (\<lambda>(loc, r). exchanges r \<noteq> []) (zip locs rs))"
  using assms(1) unfolding submitSearch_run [OF assms(2,3)]
  by (auto simp: exchange_list_def split: if_splits)

theorem submitSearch_exchanges_witness:
  "submitSearch char_compare (map_holding short_residues) short_history = Inr (Open short_query)
   \<and> map first_location short_history = map Inr short_locations
   \<and> map (map_get (map_holding short_residues)) short_history = map Some short_residues
   \<and> map exchanges short_residues = [[''ALA''], []]
   \<and> query_exchanges short_query =
       map (\<lambda>(loc, r). \<lparr>residue_id = residueId_at loc, allowed = exchanges r\<rparr>)
         (filter (\<lambda>(loc, r). exchanges r \<noteq> []) (zip short_locations short_residues))"
proof -
  have c: "considered short_history = short_history"
    by (rule considered_short) (simp add: short_history_def MAX_MOTIF_SIZE_def)
  have ex: "map exchanges short_residues = [[''ALA''], []]"
    by (simp add: short_residues_def picked_residue_def toggleExchange_def hasExchange_def
        set_has_def set_delete_def)
  show ?thesis
    using submitSearch_exchanges [of char_compare "map_holding short_residues" short_history
        short_query short_locations short_residues, unfolded c,
        OF short_submitted short_located short_tracked]
      short_submitted short_located short_tracked ex
    by simp
qed

lemma toggle_again_absent:
  "\<not> hasExchange r val \<Longrightarrow> toggleExchange (toggleExchange r val) val = r"
  by (simp add: toggleExchange_def hasExchange_def set_has_def set_add_def set_delete_def)

lemma toggle_again_present:
  "hasExchange r val \<Longrightarrow>
     exchanges (toggleExchange (toggleExchange r val) val) = removeAll val (exchanges r) @ [val]"
  by (simp add: toggleExchange_def hasExchange_def set_has_def set_add_def set_delete_def)

text \<open>
  C8: one call of \<open>toggleExchange\<close> adds the code to the exchange set if it was absent
  and removes it if it was present, and two calls with the same code give back the
  exchange set from before the first call. The set may become empty.
\<close>

theorem toggleExchange_twice:
  "set (exchanges (toggleExchange (toggleExchange r val) val)) = set (exchanges r)
   \<and> entry (toggleExchange (toggleExchange r val) val) = entry r
   \<and> set (exchanges (toggleExchange r val)) =
       (if hasExchange r val then set (exchanges r) - {val}
        else insert val (set (exchanges r)))
   \<and> entry (toggleExchange r val) = entry r
   \<and> toggleExchange \<lparr>entry = e, exchanges = [val]\<rparr> val = \<lparr>entry = e, exchanges = []\<rparr>"
  by (auto simp: toggleExchange_def hasExchange_def set_has_def set_set_add set_set_delete
      set_add_def set_delete_def)

text \<open>
  C9: a new \<open>Residue\<close> for an entry has exactly one exchange, the residue type of the
  atom at the first index of the first element of the entry's loci. An entry that has
  left the history is no key of the map after \<open>updateResidues\<close>, so when it comes back
  \<open>add\<close> makes such a new \<open>Residue\<close> for it, whatever the old map \<open>m\<close> held.
\<close>

theorem new_Residue_native:
  assumes "elements (loci e) = el # els" and "indices el = k # ks"
    and "k < length (unit_elements (unit el))"
    and "unit_elements (unit el) ! k < length (atom_sites (unit el))"
  shows "new_Residue e =
           Inr \<lparr>entry = e,
                exchanges = [site_comp_id (atom_sites (unit el) ! (unit_elements (unit el) ! k))]\<rparr>
         \<and> add_residue (updateResidues m (removeAll e h)) e =
             Inr ((updateResidues m (removeAll e h))
                    (e \<mapsto> Some \<lparr>entry = e,
                       exchanges = [site_comp_id (atom_sites (unit el) ! (unit_elements (unit el) ! k))]\<rparr>),
                  Some \<lparr>entry = e,
                    exchanges = [site_comp_id (atom_sites (unit el) ! (unit_elements (unit el) ! k))]\<rparr>)"
proof -
  have n: "new_Residue e =
           Inr \<lparr>entry = e,
                exchanges = [site_comp_id (atom_sites (unit el) ! (unit_elements (unit el) ! k))]\<rparr>"
    by (simp add: new_Residue_def first_location_first [OF assms] set_add_def
        atom_label_comp_id_def site_at_def)
  have "\<not> map_has (updateResidues m (removeAll e h)) e"
    by (simp add: map_has_def updateResidues_lookup)
  then show ?thesis using n by (simp add: add_residue_def)
qed

theorem new_Residue_native_witness:
  "new_Residue (picked ''A'' ''1ABC'' ''A'' 5 ''ALA'') =
     Inr \<lparr>entry = picked ''A'' ''1ABC'' ''A'' 5 ''ALA'', exchanges = [''ALA'']\<rparr>
   \<and> map_get (map_holding [toggleExchange (picked_residue ''A'' ''1ABC'' ''A'' 5 ''ALA'') ''GLY''])
       (picked ''A'' ''1ABC'' ''A'' 5 ''ALA'') =
       Some \<lparr>entry = picked ''A'' ''1ABC'' ''A'' 5 ''ALA'', exchanges = [''ALA'', ''GLY'']\<rparr>
   \<and> add_residue
       (updateResidues
          (map_holding [toggleExchange (picked_residue ''A'' ''1ABC'' ''A'' 5 ''ALA'') ''GLY''])
          (removeAll (picked ''A'' ''1ABC'' ''A'' 5 ''ALA'') [picked ''A'' ''1ABC'' ''A'' 5 ''ALA'']))
       (picked ''A'' ''1ABC'' ''A'' 5 ''ALA'') =
       Inr (Map.empty (picked ''A'' ''1ABC'' ''A'' 5 ''ALA'' \<mapsto>
              Some \<lparr>entry = picked ''A'' ''1ABC'' ''A'' 5 ''ALA'', exchanges = [''ALA'']\<rparr>),
            Some \<lparr>entry = picked ''A'' ''1ABC'' ''A'' 5 ''ALA'', exchanges = [''ALA'']\<rparr>)"
proof -
  let ?u = "\<lparr>unit_elements = [0], oper_list_ids = Some [''1''],
             atom_sites = [\<lparr>site_asym_id = ''A'', site_seq_id = 5, site_comp_id = ''ALA''\<rparr>]\<rparr>"
  let ?el = "\<lparr>unit = ?u, indices = [0]\<rparr>"
  have h1: "elements (loci (picked ''A'' ''1ABC'' ''A'' 5 ''ALA'')) = ?el # []"
    by (simp add: picked_def)
  have h2: "indices ?el = 0 # []" by simp
  have h3: "0 < length (unit_elements (unit ?el))" by simp
  have h4: "unit_elements (unit ?el) ! 0 < length (atom_sites (unit ?el))" by simp
  have old: "map_get (map_holding [toggleExchange (picked_residue ''A'' ''1ABC'' ''A'' 5 ''ALA'') ''GLY''])
       (picked ''A'' ''1ABC'' ''A'' 5 ''ALA'') =
       Some \<lparr>entry = picked ''A'' ''1ABC'' ''A'' 5 ''ALA'', exchanges = [''ALA'', ''GLY'']\<rparr>"
    by (simp add: map_holding_def map_get_def toggleExchange_def hasExchange_def set_has_def
        set_add_def picked_residue_def)
  have emp: "updateResidues m [] = Map.empty" for m
    by (simp add: updateResidues_def)
  show ?thesis
    using new_Residue_native [OF h1 h2 h3 h4,
        of "map_holding [toggleExchange (picked_residue ''A'' ''1ABC'' ''A'' 5 ''ALA'') ''GLY'']"
           "[picked ''A'' ''1ABC'' ''A'' 5 ''ALA'']"] old
    by (simp add: emp)
qed

text \<open>
  C10: \<open>submitSearch\<close> checks no minimum size. Whenever the considered entries
  belong to at most one model and none has the \<open>label_seq_id\<close> 0, it opens a query,
  also for fewer than \<open>MIN_MOTIF_SIZE\<close> entries; for the empty history the \<open>data\<close> of
  the query is \<open>undefined\<close>. The minimum size only sets the flag \<open>disabled\<close> of the
  menu item, in \<open>actions\<close>.
\<close>

theorem submitSearch_no_minimum:
  assumes "map first_location (considered h) = map Inr locs"
    and "map (map_get m) (considered h) = map Some rs"
    and "card (entry_model ` set (considered h)) \<le> 1"
    and "\<forall>loc \<in> set locs. residue_label_seq_id loc \<noteq> 0"
  shows "submitSearch lc m h =
           Inr (Open \<lparr>query_type = ''terminal'', service = ''strucmotif'',
                      data = at_index (map entry_model (considered h)) 0,
                      residue_ids = array_sort (sortResidueIds lc) (map residueId_at locs),
                      score_cutoff = 0,
                      query_exchanges = exchange_list (zip locs rs)\<rparr>)
         \<and> submitSearch lc m' [] =
             Inr (Open \<lparr>query_type = ''terminal'', service = ''strucmotif'',
                        data = None, residue_ids = [], score_cutoff = 0,
                        query_exchanges = []\<rparr>)
         \<and> map disabled (actions h) = [length h < MIN_MOTIF_SIZE]"
proof -
  have "submitSearch lc m' [] =
          Inr (Open \<lparr>query_type = ''terminal'', service = ''strucmotif'',
                     data = None, residue_ids = [], score_cutoff = 0,
                     query_exchanges = []\<rparr>)"
    by (simp add: submitSearch_def considered_def array_sort_def)
  then show ?thesis
    using assms(3,4)
    by (simp add: submitSearch_run [OF assms(1,2)] actions_def)
qed

theorem submitSearch_no_minimum_witness:
  "length short_history = 2
   \<and> map first_location short_history = map Inr short_locations
   \<and> map (map_get (map_holding short_residues)) short_history = map Some short_residues
   \<and> map entry_model short_history = [''1ABC'', ''1ABC'']
   \<and> map residue_label_seq_id short_locations = [5, 2]
   \<and> submitSearch char_compare (map_holding short_residues) short_history =
       Inr (Open \<lparr>query_type = ''terminal'', service = ''strucmotif'',
                  data = Some ''1ABC'',
                  residue_ids =
                    array_sort (sortResidueIds char_compare) (map residueId_at short_locations),
                  score_cutoff = 0,
                  query_exchanges = exchange_list (zip short_locations short_residues)\<rparr>)
   \<and> map disabled (actions short_history) = [True]"
proof -
  have c: "considered short_history = short_history"
    by (rule considered_short) (simp add: short_history_def MAX_MOTIF_SIZE_def)
  have len: "length short_history = 2" by (simp add: short_history_def)
  have models: "map entry_model short_history = [''1ABC'', ''1ABC'']"
    by (simp add: short_history_def picked_def entry_model_def)
  have seqs: "map residue_label_seq_id short_locations = [5, 2]"
    by (simp add: short_locations_def picked_location_def residue_label_seq_id_def site_at_def)
  have h3: "card (entry_model ` set short_history) \<le> 1"
    by (simp add: short_history_def picked_def entry_model_def)
  have h4: "\<forall>loc \<in> set short_locations. residue_label_seq_id loc \<noteq> 0"
    by (simp add: short_locations_def picked_location_def residue_label_seq_id_def site_at_def)
  show ?thesis
    using submitSearch_no_minimum [of short_history short_locations
        "map_holding short_residues" short_residues char_compare Map.empty, unfolded c,
        OF short_located short_tracked h3 h4]
      short_located short_tracked models seqs
    by (simp add: len MIN_MOTIF_SIZE_def)
qed

end
